theory Spec2Isabelle
  imports Complex_Main
begin

section \<open>Training utilities of util/utils.py\<close>

text \<open>
  The module is a flat set of helpers around an external tensor framework. The helpers
  embedded here are \<open>AverageMeter\<close> (reset, update), \<open>show_log\<close>, \<open>save_checkpoint\<close>,
  \<open>accuracy\<close> and \<open>scaled_all_reduce\<close>.
\<close>

datatype py_error = ZeroDivisionError | OverflowError | ValueError | RuntimeError

subsection \<open>Python numbers\<close>

text \<open>
  A Python number is an integer, which is unbounded and exact, or a float. The floats
  are the values of a type \<open>'f\<close> that the model leaves open, and their arithmetic, which
  rounds, is a parameter of every function that computes with them: what is proved holds
  for every such arithmetic, so for the one of the machine.
\<close>

datatype 'f py_num = PyInt int | PyFloat 'f

text \<open>
  \<open>f_of_int\<close> is the float nearest to an integer, \<open>f_add\<close>, \<open>f_mul\<close> and \<open>f_div\<close> are the
  rounded operations on floats, \<open>f_is_zero x\<close> is \<open>x == 0.0\<close>, and \<open>int_truediv a b\<close> is
  the float nearest to the quotient of two integers.
\<close>

record 'f float_ops =
  f_of_int :: "int \<Rightarrow> 'f"
  f_add :: "'f \<Rightarrow> 'f \<Rightarrow> 'f"
  f_mul :: "'f \<Rightarrow> 'f \<Rightarrow> 'f"
  f_div :: "'f \<Rightarrow> 'f \<Rightarrow> 'f"
  f_is_zero :: "'f \<Rightarrow> bool"
  int_truediv :: "int \<Rightarrow> int \<Rightarrow> 'f"

text \<open>
  The largest float is \<open>2 ^ 1024 - 2 ^ 971\<close>. A number rounds to a float when its
  absolute value is below \<open>2 ^ 1024 - 2 ^ 970\<close>, half way to the next power of two; the
  conversion of any other integer, and the true division of two integers with any other
  quotient, raises \<open>OverflowError\<close>.
\<close>

definition float_range :: int where
  "float_range = 2 ^ 1024 - 2 ^ 970"

definition int_fits :: "int \<Rightarrow> bool" where
  "int_fits i \<longleftrightarrow> \<bar>i\<bar> < float_range"

definition quotient_fits :: "int \<Rightarrow> int \<Rightarrow> bool" where
  "quotient_fits a b \<longleftrightarrow> \<bar>a\<bar> < float_range * \<bar>b\<bar>"

definition to_float :: "'f float_ops \<Rightarrow> int \<Rightarrow> py_error + 'f" where
  "to_float F i = (if int_fits i then Inr (f_of_int F i) else Inl OverflowError)"

text \<open>
  \<open>a + b\<close> and \<open>a * b\<close>: exact on two integers; an integer that meets a float is
  converted first.
\<close>

fun py_add :: "'f float_ops \<Rightarrow> 'f py_num \<Rightarrow> 'f py_num \<Rightarrow> py_error + 'f py_num" where
  "py_add F (PyInt a) (PyInt b) = Inr (PyInt (a + b))"
| "py_add F (PyInt a) (PyFloat y) =
     (case to_float F a of Inl e \<Rightarrow> Inl e | Inr x \<Rightarrow> Inr (PyFloat (f_add F x y)))"
| "py_add F (PyFloat x) (PyInt b) =
     (case to_float F b of Inl e \<Rightarrow> Inl e | Inr y \<Rightarrow> Inr (PyFloat (f_add F x y)))"
| "py_add F (PyFloat x) (PyFloat y) = Inr (PyFloat (f_add F x y))"

fun py_mul :: "'f float_ops \<Rightarrow> 'f py_num \<Rightarrow> 'f py_num \<Rightarrow> py_error + 'f py_num" where
  "py_mul F (PyInt a) (PyInt b) = Inr (PyInt (a * b))"
| "py_mul F (PyInt a) (PyFloat y) =
     (case to_float F a of Inl e \<Rightarrow> Inl e | Inr x \<Rightarrow> Inr (PyFloat (f_mul F x y)))"
| "py_mul F (PyFloat x) (PyInt b) =
     (case to_float F b of Inl e \<Rightarrow> Inl e | Inr y \<Rightarrow> Inr (PyFloat (f_mul F x y)))"
| "py_mul F (PyFloat x) (PyFloat y) = Inr (PyFloat (f_mul F x y))"

text \<open>
  \<open>a / b\<close>, the true division: the result is a float. A divisor equal to zero raises
  \<open>ZeroDivisionError\<close>; where an integer meets a float, the conversion of the integer
  comes before that test.
\<close>

fun py_truediv :: "'f float_ops \<Rightarrow> 'f py_num \<Rightarrow> 'f py_num \<Rightarrow> py_error + 'f py_num" where
  "py_truediv F (PyInt a) (PyInt b) =
     (if b = 0 then Inl ZeroDivisionError
      else if quotient_fits a b then Inr (PyFloat (int_truediv F a b))
      else Inl OverflowError)"
| "py_truediv F (PyInt a) (PyFloat y) =
     (case to_float F a of
        Inl e \<Rightarrow> Inl e
      | Inr x \<Rightarrow> if f_is_zero F y then Inl ZeroDivisionError else Inr (PyFloat (f_div F x y)))"
| "py_truediv F (PyFloat x) (PyInt b) =
     (case to_float F b of
        Inl e \<Rightarrow> Inl e
      | Inr y \<Rightarrow> if b = 0 then Inl ZeroDivisionError else Inr (PyFloat (f_div F x y)))"
| "py_truediv F (PyFloat x) (PyFloat y) =
     (if f_is_zero F y then Inl ZeroDivisionError else Inr (PyFloat (f_div F x y)))"

text \<open>\<open>a == 0\<close>.\<close>

fun py_is_zero :: "'f float_ops \<Rightarrow> 'f py_num \<Rightarrow> bool" where
  "py_is_zero F (PyInt a) = (a = 0)"
| "py_is_zero F (PyFloat x) = f_is_zero F x"

text \<open>
  Arithmetic without rounding, on the reals. It agrees with the arithmetic of the floats
  wherever the exact result is a float; the examples below stay within such values.
\<close>

definition exact_ops :: "real float_ops" where
  "exact_ops =
     \<lparr>f_of_int = of_int, f_add = (+), f_mul = (*), f_div = (/),
      f_is_zero = (\<lambda>x. x = 0), int_truediv = (\<lambda>a b. of_int a / of_int b)\<rparr>"

subsection \<open>AverageMeter\<close>

text \<open>
  The object's attributes, in the order in which \<open>__init__\<close> and \<open>reset\<close> create them.
  The attribute \<open>sum\<close> is the field \<open>sum_f\<close>, as \<open>sum\<close> is a constant of HOL.
\<close>

record 'f AverageMeter =
  name :: string
  fmt :: string
  val :: "'f py_num"
  avg :: "'f py_num"
  sum_f :: "'f py_num"
  count :: "'f py_num"

text \<open>
  \<open>reset\<close> assigns the integer 0 to \<open>val\<close>, \<open>avg\<close>, \<open>sum\<close> and \<open>count\<close>, and to nothing
  else.
\<close>

definition reset :: "'f AverageMeter \<Rightarrow> 'f AverageMeter" where
  "reset m = m\<lparr>val := PyInt 0, avg := PyInt 0, sum_f := PyInt 0, count := PyInt 0\<rparr>"

text \<open>\<open>__init__(name, fmt)\<close> stores the two strings and calls \<open>reset\<close>.\<close>

definition init :: "string \<Rightarrow> string \<Rightarrow> 'f AverageMeter" where
  "init nm f =
     reset \<lparr>name = nm, fmt = f, val = PyInt 0, avg = PyInt 0, sum_f = PyInt 0, count = PyInt 0\<rparr>"

text \<open>
  \<open>update(val, n)\<close> for Python integers and floats \<open>val\<close> and \<open>n\<close>: \<open>self.sum += val * n\<close>,
  \<open>self.count += n\<close>, then \<open>self.avg = self.sum / self.count\<close>. An exception of one of
  the operations ends the call.
\<close>

definition update ::
  "'f float_ops \<Rightarrow> 'f py_num \<Rightarrow> 'f py_num \<Rightarrow> 'f AverageMeter \<Rightarrow> py_error + 'f AverageMeter" where
  "update F v n m =
     (case py_mul F v n of
        Inl e \<Rightarrow> Inl e
      | Inr p \<Rightarrow>
          (case py_add F (sum_f m) p of
             Inl e \<Rightarrow> Inl e
           | Inr s \<Rightarrow>
               (case py_add F (count m) n of
                  Inl e \<Rightarrow> Inl e
                | Inr c \<Rightarrow>
                    (case py_truediv F s c of
                       Inl e \<Rightarrow> Inl e
                     | Inr a \<Rightarrow> Inr (m\<lparr>val := v, avg := a, sum_f := s, count := c\<rparr>)))))"

text \<open>
  A sequence of calls \<open>update(v\<^sub>1, n\<^sub>1)\<close>, ..., \<open>update(v\<^sub>m, n\<^sub>m)\<close> on one meter; an exception
  ends the sequence.
\<close>

fun updates ::
  "'f float_ops \<Rightarrow> 'f AverageMeter \<Rightarrow> ('f py_num \<times> 'f py_num) list \<Rightarrow> py_error + 'f AverageMeter" where
  "updates F m [] = Inr m"
| "updates F m ((v, n) # cs) =
     (case update F v n m of Inl e \<Rightarrow> Inl e | Inr m' \<Rightarrow> updates F m' cs)"

text \<open>A call with two integers.\<close>

definition int_call :: "int \<times> int \<Rightarrow> 'f py_num \<times> 'f py_num" where
  "int_call c = (PyInt (fst c), PyInt (snd c))"

text \<open>
  The attribute dictionary of the object (\<open>self.__dict__\<close>, which \<open>__str__\<close> hands to
  \<open>format\<close>): every attribute with its value.
\<close>

datatype 'f py_value = Num "'f py_num" | Str string

definition attrs :: "'f AverageMeter \<Rightarrow> (string \<times> 'f py_value) list" where
  "attrs m =
     [(''name'', Str (name m)), (''fmt'', Str (fmt m)),
      (''val'', Num (val m)), (''avg'', Num (avg m)),
      (''sum'', Num (sum_f m)), (''count'', Num (count m))]"

text \<open>
  For calls with integers, from the sum \<open>s\<close> and the count \<open>c\<close>: every partial count
  \<open>c + n\<^sub>1 + ... + n\<^sub>k\<close> (\<open>1 \<le> k\<close>) is nonzero, and the quotient of every partial sum by
  its partial count is in the range of the floats.
\<close>

fun divisions_ok :: "int \<Rightarrow> int \<Rightarrow> (int \<times> int) list \<Rightarrow> bool" where
  "divisions_ok s c [] = True"
| "divisions_ok s c ((v, n) # cs) =
     (c + n \<noteq> 0 \<and> quotient_fits (s + v * n) (c + n) \<and> divisions_ok (s + v * n) (c + n) cs)"

subsection \<open>show_log\<close>

text \<open>
  Standard output is the list of lines printed so far; \<open>print\<close> appends one line.
  The rank is a Python integer.
\<close>

definition show_log :: "string \<Rightarrow> int \<Rightarrow> string list \<Rightarrow> string list" where
  "show_log log_str rank out = (if rank = 0 then out @ [log_str] else out)"

subsection \<open>save_checkpoint\<close>

text \<open>
  The file system maps a path, the string that the program passes to the framework, to
  the content of the file there; the content written by \<open>torch.save(state, f)\<close> is
  the serialised state, which the model identifies with the state. \<open>shutil.copyfile\<close>
  copies the content of its first path to its second and raises when the source is
  missing or when the two paths name the same file. An exception ends the call.
\<close>

datatype io_error = FileNotFoundError | SameFileError

definition torch_save :: "'s \<Rightarrow> string \<Rightarrow> (string \<rightharpoonup> 's) \<Rightarrow> (string \<rightharpoonup> 's)" where
  "torch_save state f fs = fs(f \<mapsto> state)"

definition copyfile :: "string \<Rightarrow> string \<Rightarrow> (string \<rightharpoonup> 's) \<Rightarrow> io_error + (string \<rightharpoonup> 's)" where
  "copyfile src dst fs =
     (if src = dst then Inl SameFileError
      else case fs src of
             None \<Rightarrow> Inl FileNotFoundError
           | Some c \<Rightarrow> Inr (fs(dst \<mapsto> c)))"

text \<open>
  \<open>save_checkpoint(state, is_best, filename)\<close>: the local \<open>path\<close> is bound and not read
  again; both framework calls receive \<open>filename\<close>.
\<close>

definition save_checkpoint ::
  "'s \<Rightarrow> bool \<Rightarrow> string \<Rightarrow> (string \<rightharpoonup> 's) \<Rightarrow> io_error + (string \<rightharpoonup> 's)" where
  "save_checkpoint state is_best filename fs =
     (let path = ''./checkpoint/'' @ filename;
          fs1 = torch_save state filename fs
      in if is_best then copyfile filename ''ckpt_best.pth.tar'' fs1 else Inr fs1)"

subsection \<open>Tensor elements\<close>

text \<open>
  The elements of a tensor are the values of a type \<open>'t\<close> that the model leaves open, as
  the floats above, with the arithmetic of the framework as a parameter: \<open>of_bool b\<close> is
  the element that \<open>.float()\<close> makes of a boolean, \<open>t_sum\<close> the sum that \<open>.sum()\<close> computes
  of a list of elements, \<open>t_mul x s\<close> the product that \<open>mul_(s)\<close> computes from an element
  and a Python number, and \<open>red_sum\<close> the sum that the collective reduction computes of
  the values that one element has on the processes, this process first.
\<close>

record ('t, 'f) tensor_ops =
  of_bool :: "bool \<Rightarrow> 't"
  t_sum :: "'t list \<Rightarrow> 't"
  t_mul :: "'t \<Rightarrow> 'f py_num \<Rightarrow> 't"
  red_sum :: "'t list \<Rightarrow> 't"

text \<open>The same without rounding, on the reals.\<close>

definition exact_tensor_ops :: "(real, real) tensor_ops" where
  "exact_tensor_ops =
     \<lparr>of_bool = (\<lambda>b. if b then 1 else 0), t_sum = sum_list,
      t_mul = (\<lambda>x s. case s of PyInt i \<Rightarrow> x * of_int i | PyFloat y \<Rightarrow> x * y),
      red_sum = sum_list\<rparr>"

subsection \<open>accuracy\<close>

text \<open>
  \<open>output\<close> is a tensor of shape (batch, classes): the list of its rows, with the size
  \<open>classes\<close> of dimension 1 as a parameter of its own, as a tensor without rows still
  has it. Its entries are only compared, so they are the real numbers that the floats
  are. \<open>target\<close> is a tensor of one dimension that holds class indices, and \<open>topk\<close> a
  tuple of positive integers.

  \<open>output.topk(k, 1, True, True)\<close> gives, for every row, the indices of its \<open>k\<close> largest
  entries, the largest first; it raises when \<open>k\<close> exceeds the size of dimension 1. Among
  equal entries the framework fixes no order; the model puts the smaller index first.
\<close>

definition topk_row :: "nat \<Rightarrow> real list \<Rightarrow> nat list" where
  "topk_row k row = take k (sort_key (\<lambda>i. - (row ! i)) [0..<length row])"

text \<open>
  \<open>target.view(1, -1).expand_as(pred)\<close>, for \<open>pred\<close> of shape (maxk, batch): the row
  of targets, repeated along dimension 0. A target of one element is repeated along
  dimension 1 as well; any other size that differs from \<open>batch\<close> raises.
\<close>

definition expand_as :: "nat list \<Rightarrow> nat \<Rightarrow> py_error + nat list" where
  "expand_as target batch =
     (if length target = batch then Inr target
      else if length target = 1 then Inr (replicate batch (target ! 0))
      else Inl RuntimeError)"

text \<open>
  The loop over \<open>topk\<close>: \<open>correct_k\<close> is the sum of the first \<open>k\<close> rows of \<open>correct\<close> as
  floats, and the result for \<open>k\<close> is \<open>correct_k.mul_(100.0 / batch_size)\<close>, a tensor of
  one element, embedded as that element. The Python division \<open>100.0 / batch_size\<close>
  raises for a target without elements.
\<close>

fun accuracy_loop ::
  "'f float_ops \<Rightarrow> ('t, 'f) tensor_ops \<Rightarrow> bool list list \<Rightarrow> nat \<Rightarrow> nat list \<Rightarrow> 't list
   \<Rightarrow> py_error + 't list" where
  "accuracy_loop F T correct batch_size [] res = Inr res"
| "accuracy_loop F T correct batch_size (k # ks) res =
     (let correct_k = t_sum T (map (of_bool T) (concat (take k correct)))
      in case py_truediv F (PyFloat (f_of_int F 100)) (PyInt (int batch_size)) of
           Inl e \<Rightarrow> Inl e
         | Inr s \<Rightarrow> accuracy_loop F T correct batch_size ks (res @ [t_mul T correct_k s]))"

text \<open>
  \<open>accuracy(output, target, topk)\<close>. \<open>max\<close> of an empty tuple raises \<open>ValueError\<close>.
\<close>

definition accuracy ::
  "'f float_ops \<Rightarrow> ('t, 'f) tensor_ops \<Rightarrow> nat \<Rightarrow> real list list \<Rightarrow> nat list \<Rightarrow> nat list
   \<Rightarrow> py_error + 't list" where
  "accuracy F T classes output target topk =
     (if topk = [] then Inl ValueError
      else
        let maxk = Max (set topk);
            batch_size = length target
        in if classes < maxk then Inl RuntimeError
           else
             let pred = map (topk_row maxk) output;
                 pred_t = map (\<lambda>j. map (\<lambda>r. r ! j) pred) [0..<maxk]
             in case expand_as target (length output) of
                  Inl e \<Rightarrow> Inl e
                | Inr tgt \<Rightarrow>
                    let correct = map (\<lambda>r. map2 (\<lambda>p t. p = t) r tgt) pred_t
                    in accuracy_loop F T correct batch_size topk [])"

text \<open>The row that is 1 at class \<open>c\<close> and 0 at every other class.\<close>

definition one_hot :: "nat \<Rightarrow> nat \<Rightarrow> real list" where
  "one_hot classes c = map (\<lambda>j. if j = c then 1 else 0) [0..<classes]"

subsection \<open>scaled_all_reduce\<close>

text \<open>
  A tensor object of this process is an address in \<open>mem\<close>, which holds its elements and
  whether its dtype is a floating one; the argument \<open>tensors\<close> is a list of addresses.
  The process group consists of this process and \<open>others\<close> further ones, so
  \<open>get_world_size()\<close> is \<open>others + 1\<close>. The framework matches the reductions of the
  processes in the order of issue: \<open>remote q h\<close> holds the elements of the tensor that the
  \<open>q\<close>-th other process contributes to the \<open>h\<close>-th reduction that this process issues.
  \<open>trace\<close> records the framework calls in program order.
\<close>

type_synonym addr = nat

record 't tensor =
  floating :: bool
  elems :: "'t list"

datatype work = Work nat addr

datatype event = AllReduce addr | Wait work | Mul addr

record 't world =
  others :: nat
  remote :: "nat \<Rightarrow> nat \<Rightarrow> 't list"
  mem :: "addr \<Rightarrow> 't tensor"
  issued :: nat
  trace :: "event list"

definition get_world_size :: "'t world \<Rightarrow> nat" where
  "get_world_size w = others w + 1"

text \<open>
  \<open>all_reduce(tensor, async_op=True)\<close> queues the reduction and returns its handle.
\<close>

definition all_reduce_async :: "addr \<Rightarrow> 't world \<Rightarrow> work \<times> 't world" where
  "all_reduce_async a w =
     (Work (issued w) a, w\<lparr>issued := issued w + 1, trace := trace w @ [AllReduce a]\<rparr>)"

text \<open>
  \<open>wait()\<close> returns when the reduction is done: every element of the tensor then is the
  sum of the values that it has on the processes.
\<close>

definition all_reduce_sum :: "('t, 'f) tensor_ops \<Rightarrow> 't list \<Rightarrow> 't list list \<Rightarrow> 't list" where
  "all_reduce_sum T t ts = map (\<lambda>j. red_sum T (t ! j # map (\<lambda>u. u ! j) ts)) [0..<length t]"

definition wait :: "('t, 'f) tensor_ops \<Rightarrow> work \<Rightarrow> 't world \<Rightarrow> 't world" where
  "wait T r w =
     (case r of Work h a \<Rightarrow>
        w\<lparr>mem := (mem w)(a := (mem w a)
                \<lparr>elems := all_reduce_sum T (elems (mem w a))
                            (map (\<lambda>q. remote w q h) [0..<others w])\<rparr>),
          trace := trace w @ [Wait r]\<rparr>)"

text \<open>
  \<open>tensor.mul_(1.0 / gpus)\<close>: the Python division comes first; the call then multiplies
  every element in place, and raises for a tensor whose dtype is not a floating one, as
  the product with a float cannot be stored in it.
\<close>

definition mul_inplace ::
  "'f float_ops \<Rightarrow> ('t, 'f) tensor_ops \<Rightarrow> nat \<Rightarrow> addr \<Rightarrow> 't world \<Rightarrow> (py_error + unit) \<times> 't world" where
  "mul_inplace F T gpus a w =
     (case py_truediv F (PyFloat (f_of_int F 1)) (PyInt (int gpus)) of
        Inl e \<Rightarrow> (Inl e, w)
      | Inr s \<Rightarrow>
          let w1 = w\<lparr>trace := trace w @ [Mul a]\<rparr>
          in if floating (mem w a)
             then (Inr (), w1\<lparr>mem := (mem w)(a := (mem w a)
                                 \<lparr>elems := map (\<lambda>x. t_mul T x s) (elems (mem w a))\<rparr>)\<rparr>)
             else (Inl RuntimeError, w1))"

text \<open>The three loops of the function, and the function.\<close>

fun queue_reductions :: "addr list \<Rightarrow> work list \<Rightarrow> 't world \<Rightarrow> work list \<times> 't world" where
  "queue_reductions [] reductions w = (reductions, w)"
| "queue_reductions (t # ts) reductions w =
     (case all_reduce_async t w of
        (reduction, w') \<Rightarrow> queue_reductions ts (reductions @ [reduction]) w')"

fun wait_reductions :: "('t, 'f) tensor_ops \<Rightarrow> work list \<Rightarrow> 't world \<Rightarrow> 't world" where
  "wait_reductions T [] w = w"
| "wait_reductions T (r # rs) w = wait_reductions T rs (wait T r w)"

fun scale_results ::
  "'f float_ops \<Rightarrow> ('t, 'f) tensor_ops \<Rightarrow> nat \<Rightarrow> addr list \<Rightarrow> 't world \<Rightarrow> (py_error + unit) \<times> 't world" where
  "scale_results F T gpus [] w = (Inr (), w)"
| "scale_results F T gpus (t # ts) w =
     (case mul_inplace F T gpus t w of
        (Inl e, w') \<Rightarrow> (Inl e, w')
      | (Inr u, w') \<Rightarrow> scale_results F T gpus ts w')"

definition scaled_all_reduce ::
  "'f float_ops \<Rightarrow> ('t, 'f) tensor_ops \<Rightarrow> addr list \<Rightarrow> 't world \<Rightarrow> (py_error + addr list) \<times> 't world" where
  "scaled_all_reduce F T tensors w =
     (let gpus = get_world_size w
      in if gpus = 1 then (Inr tensors, w)
         else
           case queue_reductions tensors [] w of
             (reductions, w1) \<Rightarrow>
               let w2 = wait_reductions T reductions w1
               in case scale_results F T gpus tensors w2 of
                    (Inl e, w3) \<Rightarrow> (Inl e, w3)
                  | (Inr u, w3) \<Rightarrow> (Inr tensors, w3))"

text \<open>The tensor that a handle refers to.\<close>

fun work_addr :: "work \<Rightarrow> addr" where
  "work_addr (Work h a) = a"

subsection \<open>get_lr_scheduler\<close>

text \<open>
  The text of \<open>get_lr_scheduler\<close> is not a Python statement: its first condition reads
  \<^verbatim>\<open>if cfg.OPTIM.LR_POLICY = "cos"\<close>, with the assignment sign and without the colon,
  and the call of \<open>MultiStepLR\<close> passes \<^verbatim>\<open>cfg.OPTIM.LR_MULT=0.1\<close>, an attribute
  expression in the place of a keyword name. The compiler rejects both, so the function
  has no behaviour to embed.
\<close>

section \<open>Properties\<close>

subsection \<open>AverageMeter\<close>

text \<open>The integer 0 converts to a float.\<close>

lemma int_fits_0: "int_fits 0"
  by (simp add: int_fits_def float_range_def)

text \<open>One call with integers, on a meter whose sum and count are integers.\<close>

lemma update_ints:
  assumes "c + n \<noteq> 0" and "quotient_fits (s + v * n) (c + n)"
    and "sum_f m = PyInt s" and "count m = PyInt c"
  shows "update F (PyInt v) (PyInt n) m
         = Inr (m\<lparr>val := PyInt v, avg := PyFloat (int_truediv F (s + v * n) (c + n)),
                  sum_f := PyInt (s + v * n), count := PyInt (c + n)\<rparr>)"
  using assms by (simp add: update_def)


text \<open>A division that is not defined ends the run with its exception.\<close>

lemma updates_ints_error:
  assumes "\<not> divisions_ok s c calls" and "sum_f m = PyInt s" and "count m = PyInt c"
  shows "updates F m (map int_call calls) = Inl ZeroDivisionError
       \<or> updates F m (map int_call calls) = Inl OverflowError"
  using assms
proof (induction calls arbitrary: s c m)
  case Nil
  then show ?case by simp
next
  case (Cons x calls)
  obtain v n where x: "x = (v, n)" by (cases x)
  show ?case
  proof (cases "c + n \<noteq> 0 \<and> quotient_fits (s + v * n) (c + n)")
    case False
    with Cons.prems(2,3) show ?thesis
      by (auto simp: x int_call_def update_def)
  next
    case True
    let ?m1 = "m\<lparr>val := PyInt v, avg := PyFloat (int_truediv F (s + v * n) (c + n)),
                  sum_f := PyInt (s + v * n), count := PyInt (c + n)\<rparr>"
    from True Cons.prems(2,3) have step: "update F (PyInt v) (PyInt n) m = Inr ?m1"
      by (simp add: update_ints)
    from True Cons.prems(1) x have rest: "\<not> divisions_ok (s + v * n) (c + n) calls"
      by simp
    have "sum_f ?m1 = PyInt (s + v * n)" and "count ?m1 = PyInt (c + n)" by simp_all
    from Cons.IH[OF rest this] step show ?thesis
      by (simp add: x int_call_def)
  qed
qed

text \<open>\<open>divisions_ok\<close> in terms of the partial sums and the partial counts.\<close>

lemma divisions_ok_partial_sums:
  "divisions_ok s c cs \<longleftrightarrow>
     (\<forall>k. 1 \<le> k \<and> k \<le> length cs \<longrightarrow>
        c + (\<Sum>(v, n)\<leftarrow>take k cs. n) \<noteq> 0
      \<and> quotient_fits (s + (\<Sum>(v, n)\<leftarrow>take k cs. v * n)) (c + (\<Sum>(v, n)\<leftarrow>take k cs. n)))"
proof (induction cs arbitrary: s c)
  case Nil
  show ?case by simp
next
  case (Cons x cs)
  obtain v n where x: "x = (v, n)" by (cases x)
  let ?P = "\<lambda>s c cs k. c + (\<Sum>(v, n)\<leftarrow>take k cs. n) \<noteq> 0
      \<and> quotient_fits (s + (\<Sum>(v, n)\<leftarrow>take k cs. v * n)) (c + (\<Sum>(v, n)\<leftarrow>take k cs. n))"
  have suc: "\<And>k. ?P s c (x # cs) (Suc k) = ?P (s + v * n) (c + n) cs k"
    by (simp add: x add.assoc)
  have split: "(\<forall>k. 1 \<le> k \<and> k \<le> length (x # cs) \<longrightarrow> ?P s c (x # cs) k)
     \<longleftrightarrow> ?P (s + v * n) (c + n) cs 0
         \<and> (\<forall>k. 1 \<le> k \<and> k \<le> length cs \<longrightarrow> ?P (s + v * n) (c + n) cs k)"
    (is "?L \<longleftrightarrow> ?A \<and> ?R")
  proof
    assume L: ?L
    from L have "1 \<le> Suc 0 \<and> Suc 0 \<le> length (x # cs) \<longrightarrow> ?P s c (x # cs) (Suc 0)"
      by (rule spec)
    then have "?P s c (x # cs) (Suc 0)" by simp
    with suc[of 0] have ?A by blast
    moreover have ?R
    proof (intro allI impI)
      fix k assume "1 \<le> k \<and> k \<le> length cs"
      moreover from L have "1 \<le> Suc k \<and> Suc k \<le> length (x # cs) \<longrightarrow> ?P s c (x # cs) (Suc k)"
        by (rule spec)
      ultimately have "?P s c (x # cs) (Suc k)" by simp
      with suc[of k] show "?P (s + v * n) (c + n) cs k" by blast
    qed
    ultimately show "?A \<and> ?R" ..
  next
    assume AR: "?A \<and> ?R"
    show ?L
    proof (intro allI impI)
      fix k assume k: "1 \<le> k \<and> k \<le> length (x # cs)"
      then obtain j where j: "k = Suc j" by (cases k) auto
      have "?P (s + v * n) (c + n) cs j"
      proof (cases j)
        case 0
        with AR show ?thesis by simp
      next
        case (Suc i)
        with k j have "1 \<le> j \<and> j \<le> length cs" by simp
        with AR show ?thesis by blast
      qed
      with suc[of j] show "?P s c (x # cs) k" unfolding j by blast
    qed
  qed
  have "divisions_ok s c (x # cs)
        \<longleftrightarrow> ?P (s + v * n) (c + n) cs 0 \<and> divisions_ok (s + v * n) (c + n) cs"
    by (simp add: x)
  then show ?case by (simp only: split Cons.IH)
qed




text \<open>
  C4, as stated, every attribute of the object equals zero after \<open>reset()\<close>: fails. The
  attribute \<open>name\<close> of a meter created as \<open>AverageMeter("Loss", ":6.4f")\<close> is still the
  string \<open>"Loss"\<close> after \<open>reset()\<close>.
\<close>

theorem reset_keeps_name_counterexample:
  "map_of (attrs (reset (init ''Loss'' '':6.4f'' :: real AverageMeter))) ''name''
     = Some (Str ''Loss'')
   \<and> (Str ''Loss'' :: real py_value) \<noteq> Num (PyInt 0)"
  by (simp add: attrs_def reset_def init_def)

text \<open>
  C4, amended: for every AverageMeter in any state, \<open>reset()\<close> sets the attributes
  \<open>val\<close>, \<open>avg\<close>, \<open>sum\<close> and \<open>count\<close> to zero and leaves \<open>name\<close> and \<open>fmt\<close> as they were.
\<close>

theorem reset_attrs:
  "attrs (reset m) =
     [(''name'', Str (name m)), (''fmt'', Str (fmt m)),
      (''val'', Num (PyInt 0)), (''avg'', Num (PyInt 0)),
      (''sum'', Num (PyInt 0)), (''count'', Num (PyInt 0))]"
  by (simp add: attrs_def reset_def)

text \<open>
  Of the operations of \<open>update\<close>, only the division raises \<open>ZeroDivisionError\<close>, and it
  raises for every divisor that is zero.
\<close>

lemma py_add_not_zerodiv: "py_add F a b \<noteq> Inl ZeroDivisionError"
  by (cases a; cases b) (simp_all add: to_float_def)

lemma py_mul_not_zerodiv: "py_mul F a b \<noteq> Inl ZeroDivisionError"
  by (cases a; cases b) (simp_all add: to_float_def)

lemma py_truediv_zerodiv:
  "py_truediv F s c = Inl ZeroDivisionError \<Longrightarrow> py_is_zero F c"
  by (cases s; cases c) (auto simp: to_float_def split: if_splits)

lemma py_truediv_zero:
  "py_is_zero F c \<Longrightarrow> py_truediv F s c = Inl ZeroDivisionError \<or> py_truediv F s c = Inl OverflowError"
  by (cases s; cases c) (auto simp: to_float_def int_fits_0)

text \<open>
  C10: \<open>update(v, n)\<close> divides by the new count, the accumulated count plus \<open>n\<close>. The
  division is defined only when that is nonzero: a \<open>ZeroDivisionError\<close> of \<open>update\<close> means
  that the new count is zero, and with a new count of zero \<open>update\<close> raises. In
  particular \<open>update(v, 0)\<close> on a meter that was just reset raises \<open>ZeroDivisionError\<close>,
  for every number \<open>v\<close>.
\<close>

theorem update_division_by_count:
  "(update F v n m = Inl ZeroDivisionError \<longrightarrow>
      (\<exists>c. py_add F (count m) n = Inr c \<and> py_is_zero F c))
   \<and> (py_add F (count m) n = Inr c \<and> py_is_zero F c \<longrightarrow>
      (\<exists>e. update F v n m = Inl e))
   \<and> update F v (PyInt 0) (reset m) = Inl ZeroDivisionError"
proof (intro conjI impI)
  assume z: "update F v n m = Inl ZeroDivisionError"
  show "\<exists>c. py_add F (count m) n = Inr c \<and> py_is_zero F c"
  proof (cases "py_mul F v n")
    case (Inl e)
    with z py_mul_not_zerodiv[of F v n] show ?thesis by (simp add: update_def)
  next
    case p: (Inr p)
    show ?thesis
    proof (cases "py_add F (sum_f m) p")
      case (Inl e)
      with z p py_add_not_zerodiv[of F "sum_f m" p] show ?thesis by (simp add: update_def)
    next
      case s: (Inr s)
      show ?thesis
      proof (cases "py_add F (count m) n")
        case (Inl e)
        with z p s py_add_not_zerodiv[of F "count m" n] show ?thesis by (simp add: update_def)
      next
        case c: (Inr c)
        with z p s have "py_truediv F s c = Inl ZeroDivisionError"
          by (simp add: update_def split: sum.splits)
        then have "py_is_zero F c" by (rule py_truediv_zerodiv)
        with c show ?thesis by simp
      qed
    qed
  qed
next
  assume "py_add F (count m) n = Inr c \<and> py_is_zero F c"
  then have c: "py_add F (count m) n = Inr c" and z: "py_is_zero F c" by simp_all
  show "\<exists>e. update F v n m = Inl e"
  proof (cases "py_mul F v n")
    case (Inl e)
    then show ?thesis by (simp add: update_def)
  next
    case p: (Inr p)
    show ?thesis
    proof (cases "py_add F (sum_f m) p")
      case (Inl e)
      with p show ?thesis by (simp add: update_def)
    next
      case s: (Inr s)
      from py_truediv_zero[OF z, of s] obtain e where "py_truediv F s c = Inl e" by blast
      with p s c show ?thesis by (simp add: update_def)
    qed
  qed
next
  show "update F v (PyInt 0) (reset m) = Inl ZeroDivisionError"
    by (cases v) (simp_all add: update_def reset_def to_float_def int_fits_0)
qed

theorem update_division_by_count_witness:
  "py_add exact_ops (count (reset (init ''Loss'' '':6.4f''))) (PyInt 0) = Inr (PyInt 0)
   \<and> py_is_zero exact_ops (PyInt 0)
   \<and> update exact_ops (PyFloat (1 / 2)) (PyInt 0) (reset (init ''Loss'' '':6.4f''))
     = Inl ZeroDivisionError"
  using update_division_by_count[of exact_ops "PyFloat (1 / 2)" "PyInt 0"
      "reset (init ''Loss'' '':6.4f'')" "PyInt 0"]
  by (simp add: reset_def init_def)

subsection \<open>show_log\<close>

text \<open>
  C9: for every rank \<open>r\<close> and log string \<open>s\<close>, \<open>show_log(s, r)\<close> prints exactly when
  \<open>r\<close> is 0, and then it prints \<open>s\<close>; for a nonzero rank the output is as before.
\<close>

theorem show_log_rank_zero:
  "(show_log s r out \<noteq> out \<longleftrightarrow> r = 0)
   \<and> show_log s 0 out = out @ [s]
   \<and> (r \<noteq> 0 \<longrightarrow> show_log s r out = out)"
  by (simp add: show_log_def)

theorem show_log_rank_zero_witness:
  "show_log ''epoch 1'' 0 [''start''] = [''start'', ''epoch 1'']
   \<and> (3::int) \<noteq> 0 \<and> show_log ''epoch 1'' 3 [''start''] = [''start'']"
  using show_log_rank_zero[of "''epoch 1''" 3 "[''start'']"]
    show_log_rank_zero[of "''epoch 1''" 0 "[''start'']"]
  by simp

subsection \<open>save_checkpoint\<close>

text \<open>
  What a call leaves in the file system: the state at \<open>filename\<close> and, for \<open>is_best\<close>,
  its copy at \<open>ckpt_best.pth.tar\<close>; every other path is as before.
\<close>

lemma save_checkpoint_files:
  "save_checkpoint state False filename fs = Inr (fs(filename \<mapsto> state))"
  "filename \<noteq> ''ckpt_best.pth.tar'' \<Longrightarrow>
     save_checkpoint state True filename fs
     = Inr (fs(filename \<mapsto> state, ''ckpt_best.pth.tar'' \<mapsto> state))"
  by (simp_all add: save_checkpoint_def torch_save_def copyfile_def Let_def)

text \<open>
  C8, at the default file name on an empty file system: the code writes the state to
  \<open>ckpt.pth.tar\<close> in the working directory, and the path \<open>./checkpoint/ckpt.pth.tar\<close>,
  formed from the checkpoint directory and the file name, holds nothing.
\<close>

theorem save_checkpoint_ignores_path:
  "save_checkpoint state False ''ckpt.pth.tar'' Map.empty
     = Inr (Map.empty(''ckpt.pth.tar'' \<mapsto> state))
   \<and> (Map.empty(''ckpt.pth.tar'' \<mapsto> state)) ''./checkpoint/ckpt.pth.tar'' = None"
  by (simp add: save_checkpoint_def torch_save_def Let_def)

subsection \<open>accuracy\<close>

text \<open>A row with a strict maximum at \<open>t\<close> has \<open>t\<close> as its top-1 index.\<close>

lemma topk_row_strict_max:
  assumes t: "t < length row" and mx: "\<forall>j<length row. j \<noteq> t \<longrightarrow> row ! j < row ! t"
  shows "topk_row 1 row = [t]"
proof -
  let ?f = "\<lambda>i. - (row ! i)"
  let ?ys = "sort_key ?f [0..<length row]"
  have set_ys: "set ?ys = {0..<length row}" by simp
  have "length ?ys = length row" by simp
  with t have ne: "?ys \<noteq> []" by (metis length_0_conv not_less_zero)
  then obtain y rest where ys: "?ys = y # rest" by (cases ?ys) auto
  have "sorted (map ?f ?ys)" by (rule sorted_sort_key)
  with ys have le: "\<forall>z \<in> set rest. ?f y \<le> ?f z" by simp
  from set_ys have s: "insert y (set rest) = {0..<length row}"
    unfolding ys by simp
  then have "y \<in> {0..<length row}" by blast
  then have y: "y < length row" by simp
  from t have "t \<in> {0..<length row}" by simp
  with s have tin: "t = y \<or> t \<in> set rest" by blast
  have "y = t"
  proof (rule ccontr)
    assume "y \<noteq> t"
    with tin le have "?f y \<le> ?f t" by auto
    moreover from mx y \<open>y \<noteq> t\<close> have "row ! y < row ! t" by simp
    ultimately show False by simp
  qed
  with ys show ?thesis by (simp add: topk_row_def)
qed

lemma topk_row_one_hot:
  assumes "c < classes"
  shows "topk_row 1 (one_hot classes c) = [c]"
  using assms by (intro topk_row_strict_max) (simp_all add: one_hot_def)

text \<open>Every entry of a row compared with itself is counted.\<close>

lemma correct_all_true:
  "map (of_bool T) (map2 (\<lambda>p t. p = t) xs xs) = replicate (length xs) (of_bool T True)"
  by (induction xs) simp_all

text \<open>The size of a tensor converts to a float.\<close>

lemma size_fits: "n < 2 ^ 63 \<Longrightarrow> int_fits (int n)"
proof -
  assume "n < 2 ^ 63"
  then have "int n < 2 ^ 63" by (simp add: of_nat_less_iff[of n "2 ^ 63", simplified])
  moreover have "(2::int) ^ 63 < float_range" by (simp add: float_range_def)
  ultimately show ?thesis by (simp add: int_fits_def)
qed

text \<open>
  C7, as stated, for every batch: fails. The batch without rows satisfies the condition
  on its predictions, and \<open>accuracy\<close> raises \<open>ZeroDivisionError\<close> at
  \<open>100.0 / batch_size\<close>.
\<close>

theorem accuracy_empty_batch_counterexample:
  "accuracy exact_ops exact_tensor_ops 3 [] [] [1] = Inl ZeroDivisionError"
  by (simp add: accuracy_def expand_as_def to_float_def int_fits_def float_range_def)

text \<open>
  C7, amended: for every batch with at least one row (and fewer than \<open>2 ^ 63\<close>, as every
  tensor has) in which each prediction is one-hot-certain and its arg-max class equals
  the corresponding target, \<open>accuracy(output, target, topk=(1,))\<close> counts every
  prediction as correct: it returns, as the top-1 accuracy, the product that \<open>mul_\<close>
  computes of the float sum of \<open>batch_size\<close> ones and the float \<open>100.0 / batch_size\<close>.
\<close>

theorem accuracy_one_hot:
  assumes ne: "target \<noteq> []"
    and size: "length target < 2 ^ 63"
    and cls: "\<forall>t \<in> set target. t < classes"
    and out: "output = map (one_hot classes) target"
  shows "accuracy F T classes output target [1]
         = Inr [t_mul T (t_sum T (replicate (length target) (of_bool T True)))
                  (PyFloat (f_div F (f_of_int F 100) (f_of_int F (int (length target)))))]"
proof -
  from ne cls have c1: "\<not> classes < 1" by (cases target) auto
  have mx: "Max (set [1::nat]) = 1" by simp
  from cls have pred: "map (topk_row 1) output = map (\<lambda>t. [t]) target"
    using topk_row_one_hot[of _ classes] by (simp add: out del: One_nat_def)
  have pred_t: "map (\<lambda>j. map (\<lambda>r. r ! j) (map (topk_row 1) output)) [0..<1] = [target]"
    by (subst pred) (simp add: comp_def)
  have ex: "expand_as target (length output) = Inr target"
    by (simp add: expand_as_def out)
  from ne have n: "int (length target) \<noteq> 0" by simp
  have scalar: "py_truediv F (PyFloat (f_of_int F 100)) (PyInt (int (length target)))
                = Inr (PyFloat (f_div F (f_of_int F 100) (f_of_int F (int (length target)))))"
    using n size_fits[OF size] by (simp add: to_float_def)
  have "accuracy F T classes output target [1]
        = accuracy_loop F T [map2 (\<lambda>p t. p = t) target target] (length target) [1] []"
    unfolding accuracy_def Let_def mx pred_t ex
    using c1 by simp
  also have "\<dots> = Inr [t_mul T (t_sum T (map (of_bool T) (map2 (\<lambda>p t. p = t) target target)))
                     (PyFloat (f_div F (f_of_int F 100) (f_of_int F (int (length target)))))]"
    by (simp only: accuracy_loop.simps Let_def scalar) simp
  finally show ?thesis by (simp only: correct_all_true)
qed

theorem accuracy_one_hot_witness:
  "[2, 0] \<noteq> ([] :: nat list)
   \<and> accuracy exact_ops exact_tensor_ops 3 [[0, 0, 1], [1, 0, 0]] [2, 0] [1] = Inr [100]"
proof -
  have rows: "map (one_hot 3) [2, 0] = [[0, 0, 1], [1, 0, 0]]"
    by (simp add: one_hot_def numeral_3_eq_3)
  have "accuracy exact_ops exact_tensor_ops 3 (map (one_hot 3) [2, 0]) [2, 0] [1]
        = Inr [t_mul exact_tensor_ops (t_sum exact_tensor_ops
                 (replicate (length [2, 0 :: nat]) (of_bool exact_tensor_ops True)))
               (PyFloat (f_div exact_ops (f_of_int exact_ops 100)
                 (f_of_int exact_ops (int (length [2, 0 :: nat])))))]"
    by (rule accuracy_one_hot) simp_all
  then have "accuracy exact_ops exact_tensor_ops 3 [[0, 0, 1], [1, 0, 0]] [2, 0] [1]
        = Inr [t_mul exact_tensor_ops (t_sum exact_tensor_ops
                 (replicate (length [2, 0 :: nat]) (of_bool exact_tensor_ops True)))
               (PyFloat (f_div exact_ops (f_of_int exact_ops 100)
                 (f_of_int exact_ops (int (length [2, 0 :: nat])))))]"
    by (simp only: rows)
  moreover have "t_mul exact_tensor_ops (t_sum exact_tensor_ops
                 (replicate (length [2, 0 :: nat]) (of_bool exact_tensor_ops True)))
               (PyFloat (f_div exact_ops (f_of_int exact_ops 100)
                 (f_of_int exact_ops (int (length [2, 0 :: nat]))))) = 100"
    by (simp add: exact_ops_def exact_tensor_ops_def numeral_2_eq_2)
  ultimately show ?thesis by simp
qed

subsection \<open>scaled_all_reduce\<close>

lemma upt_add_Suc: "[n..<n + Suc k] = n # [Suc n..<Suc n + k]"
  by (subst upt_rec) simp

text \<open>The first loop issues one reduction per tensor, in the order of the list.\<close>

lemma queue_reductions_eq:
  "queue_reductions ts rs w =
     (rs @ map2 Work [issued w..<issued w + length ts] ts,
      w\<lparr>issued := issued w + length ts, trace := trace w @ map AllReduce ts\<rparr>)"
proof (induction ts arbitrary: rs w)
  case Nil
  show ?case by simp
next
  case (Cons t ts)
  have "[issued w..<issued w + length (t # ts)] = issued w # [Suc (issued w)..<Suc (issued w) + length ts]"
    using upt_add_Suc[of "issued w" "length ts"] by simp
  then show ?case
    by (simp add: all_reduce_async_def Cons.IH del: upt_Suc)
qed

text \<open>The second loop: what it leaves alone, and the tensor of each handle.\<close>

lemma wait_reductions_frame:
  "others (wait_reductions T rs w) = others w \<and> remote (wait_reductions T rs w) = remote w
   \<and> issued (wait_reductions T rs w) = issued w
   \<and> trace (wait_reductions T rs w) = trace w @ map Wait rs"
  by (induction rs arbitrary: w) (simp_all add: wait_def split: work.splits)

lemma wait_reductions_other:
  "a \<notin> work_addr ` set rs \<Longrightarrow> mem (wait_reductions T rs w) a = mem w a"
proof (induction rs arbitrary: w)
  case Nil
  show ?case by simp
next
  case (Cons r rs)
  obtain h b where r: "r = Work h b" by (cases r)
  from Cons.prems r have "a \<noteq> b" and "a \<notin> work_addr ` set rs" by auto
  then show ?case using Cons.IH[of "wait T r w"] by (simp add: r wait_def)
qed

lemma work_addr_zip: "length hs = length ts \<Longrightarrow> work_addr ` set (map2 Work hs ts) = set ts"
proof (induction hs ts rule: list_induct2)
  case Nil show ?case by simp
next
  case (Cons h hs t ts) then show ?case by simp
qed

lemma wait_reductions_mem:
  assumes "distinct ts" and "i < length ts"
  shows "mem (wait_reductions T (map2 Work [n..<n + length ts] ts) w) (ts ! i)
         = (mem w (ts ! i))\<lparr>elems := all_reduce_sum T (elems (mem w (ts ! i)))
                                       (map (\<lambda>q. remote w q (n + i)) [0..<others w])\<rparr>"
  using assms
proof (induction ts arbitrary: n w i)
  case Nil
  then show ?case by simp
next
  case (Cons t ts)
  have upt: "[n..<n + length (t # ts)] = n # [Suc n..<Suc n + length ts]"
    using upt_add_Suc[of n "length ts"] by simp
  let ?w1 = "wait T (Work n t) w"
  have step: "wait_reductions T (map2 Work [n..<n + length (t # ts)] (t # ts)) w
              = wait_reductions T (map2 Work [Suc n..<Suc n + length ts] ts) ?w1"
    by (subst upt) simp
  show ?case
  proof (cases i)
    case 0
    from Cons.prems have "t \<notin> set ts" by simp
    moreover have "work_addr ` set (map2 Work [Suc n..<Suc n + length ts] ts) = set ts"
      by (rule work_addr_zip) (simp del: upt_Suc)
    ultimately have "t \<notin> work_addr ` set (map2 Work [Suc n..<Suc n + length ts] ts)"
      by (simp only: not_False_eq_True)
    then have "mem (wait_reductions T (map2 Work [Suc n..<Suc n + length ts] ts) ?w1) t = mem ?w1 t"
      by (rule wait_reductions_other)
    with 0 step show ?thesis by (simp add: wait_def)
  next
    case (Suc k)
    with Cons.prems have k: "k < length ts" and d: "distinct ts" and ne: "ts ! k \<noteq> t"
      by auto
    have "mem (wait_reductions T (map2 Work [Suc n..<Suc n + length ts] ts) ?w1) (ts ! k)
          = (mem ?w1 (ts ! k))\<lparr>elems := all_reduce_sum T (elems (mem ?w1 (ts ! k)))
               (map (\<lambda>q. remote ?w1 q (Suc n + k)) [0..<others ?w1])\<rparr>"
      using Cons.IH[OF d k] .
    with Suc step ne show ?thesis by (simp add: wait_def)
  qed
qed

text \<open>The world size converts to a float, so \<open>1.0 / gpus\<close> has a value.\<close>

lemma reciprocal:
  assumes "0 < gpus" and "gpus < 2 ^ 31"
  shows "py_truediv F (PyFloat (f_of_int F 1)) (PyInt (int gpus))
         = Inr (PyFloat (f_div F (f_of_int F 1) (f_of_int F (int gpus))))"
proof -
  from assms(2) have "int gpus < 2 ^ 31"
    by (simp add: of_nat_less_iff[of gpus "2 ^ 31", simplified])
  moreover have "(2::int) ^ 31 < float_range" by (simp add: float_range_def)
  ultimately have "int_fits (int gpus)" by (simp add: int_fits_def)
  with assms(1) show ?thesis by (simp add: to_float_def)
qed

text \<open>
  The third loop: what it leaves alone, the calls it makes, and the tensors after it
  when each of them has a floating dtype.
\<close>

lemma scale_results_frame:
  "others (snd (scale_results F T gpus ts w)) = others w
   \<and> remote (snd (scale_results F T gpus ts w)) = remote w
   \<and> issued (snd (scale_results F T gpus ts w)) = issued w"
proof (induction ts arbitrary: w)
  case Nil
  show ?case by simp
next
  case (Cons t ts)
  show ?case
  proof (cases "mul_inplace F T gpus t w")
    case (Pair r w')
    have fr: "others w' = others w \<and> remote w' = remote w \<and> issued w' = issued w"
      using Pair by (auto simp: mul_inplace_def Let_def split: sum.splits if_splits)
    show ?thesis
    proof (cases r)
      case (Inl e)
      with Pair fr show ?thesis by simp
    next
      case (Inr u)
      with Pair fr Cons.IH[of w'] show ?thesis by simp
    qed
  qed
qed

lemma scale_results_trace:
  "\<exists>k\<le>length ts. trace (snd (scale_results F T gpus ts w)) = trace w @ map Mul (take k ts)
      \<and> (fst (scale_results F T gpus ts w) = Inr () \<longrightarrow> k = length ts)"
proof (induction ts arbitrary: w)
  case Nil
  show ?case by simp
next
  case (Cons t ts)
  show ?case
  proof (cases "mul_inplace F T gpus t w")
    case (Pair r w')
    show ?thesis
    proof (cases r)
      case (Inl e)
      from Pair Inl have "trace w' = trace w \<or> trace w' = trace w @ [Mul t]"
        by (auto simp: mul_inplace_def Let_def split: sum.splits if_splits)
      then show ?thesis
      proof
        assume "trace w' = trace w"
        with Pair Inl have "trace (snd (scale_results F T gpus (t # ts) w))
              = trace w @ map Mul (take 0 (t # ts))
            \<and> (fst (scale_results F T gpus (t # ts) w) = Inr () \<longrightarrow> 0 = length (t # ts))"
          by simp
        then show ?thesis by blast
      next
        assume "trace w' = trace w @ [Mul t]"
        with Pair Inl have "trace (snd (scale_results F T gpus (t # ts) w))
              = trace w @ map Mul (take 1 (t # ts))
            \<and> (fst (scale_results F T gpus (t # ts) w) = Inr () \<longrightarrow> 1 = length (t # ts))"
          by simp
        moreover have "1 \<le> length (t # ts)" by simp
        ultimately show ?thesis by blast
      qed
    next
      case (Inr u)
      from Pair Inr have tr: "trace w' = trace w @ [Mul t]"
        by (auto simp: mul_inplace_def Let_def split: sum.splits if_splits)
      from Cons.IH[of w'] obtain k where k: "k \<le> length ts"
          "trace (snd (scale_results F T gpus ts w')) = trace w' @ map Mul (take k ts)"
          "fst (scale_results F T gpus ts w') = Inr () \<longrightarrow> k = length ts"
        by blast
      from Pair Inr k tr have "trace (snd (scale_results F T gpus (t # ts) w))
              = trace w @ map Mul (take (Suc k) (t # ts))
            \<and> (fst (scale_results F T gpus (t # ts) w) = Inr () \<longrightarrow> Suc k = length (t # ts))"
        by simp
      moreover from k(1) have "Suc k \<le> length (t # ts)" by simp
      ultimately show ?thesis by blast
    qed
  qed
qed

lemma scale_results_floating:
  assumes "\<forall>a \<in> set ts. floating (mem w a)"
    and s: "py_truediv F (PyFloat (f_of_int F 1)) (PyInt (int gpus)) = Inr s"
  shows "fst (scale_results F T gpus ts w) = Inr ()
       \<and> (\<forall>a. a \<notin> set ts \<longrightarrow> mem (snd (scale_results F T gpus ts w)) a = mem w a)
       \<and> (distinct ts \<longrightarrow> (\<forall>a \<in> set ts. mem (snd (scale_results F T gpus ts w)) a
              = (mem w a)\<lparr>elems := map (\<lambda>x. t_mul T x s) (elems (mem w a))\<rparr>))"
  using assms(1)
proof (induction ts arbitrary: w)
  case Nil
  show ?case by simp
next
  case (Cons t ts)
  let ?w' = "w\<lparr>trace := trace w @ [Mul t],
               mem := (mem w)(t := (mem w t)\<lparr>elems := map (\<lambda>x. t_mul T x s) (elems (mem w t))\<rparr>)\<rparr>"
  from Cons.prems have ft: "floating (mem w t)" by simp
  then have step: "mul_inplace F T gpus t w = (Inr (), ?w')"
    unfolding mul_inplace_def s by (simp add: Let_def)
  from Cons.prems have "\<forall>a \<in> set ts. floating (mem ?w' a)" by simp
  from Cons.IH[OF this] have ih:
      "fst (scale_results F T gpus ts ?w') = Inr ()"
      "\<And>a. a \<notin> set ts \<Longrightarrow> mem (snd (scale_results F T gpus ts ?w')) a = mem ?w' a"
      "distinct ts \<Longrightarrow> (\<forall>a \<in> set ts. mem (snd (scale_results F T gpus ts ?w')) a
              = (mem ?w' a)\<lparr>elems := map (\<lambda>x. t_mul T x s) (elems (mem ?w' a))\<rparr>)"
    by blast+
  have run: "scale_results F T gpus (t # ts) w = scale_results F T gpus ts ?w'"
    by (simp add: step)
  show ?case
  proof (intro conjI allI impI ballI)
    show "fst (scale_results F T gpus (t # ts) w) = Inr ()"
      by (simp only: run ih(1))
  next
    fix a assume "a \<notin> set (t # ts)"
    then have "a \<notin> set ts" and "a \<noteq> t" by simp_all
    with ih(2)[of a] show "mem (snd (scale_results F T gpus (t # ts) w)) a = mem w a"
      unfolding run by simp
  next
    fix a assume d: "distinct (t # ts)" and a: "a \<in> set (t # ts)"
    show "mem (snd (scale_results F T gpus (t # ts) w)) a
          = (mem w a)\<lparr>elems := map (\<lambda>x. t_mul T x s) (elems (mem w a))\<rparr>"
    proof (cases "a = t")
      case True
      with d have "a \<notin> set ts" by simp
      with ih(2)[of a] True show ?thesis unfolding run by simp
    next
      case False
      with a d have "a \<in> set ts" and "distinct ts" by simp_all
      with ih(3) False show ?thesis unfolding run by simp
    qed
  qed
qed

text \<open>The reduction, element by element.\<close>

lemma all_reduce_sum_nth:
  "length (all_reduce_sum T t ys) = length t
   \<and> (\<forall>j < length t. all_reduce_sum T t ys ! j = red_sum T (t ! j # map (\<lambda>u. u ! j) ys))"
  by (simp add: all_reduce_sum_def)

text \<open>The function in a group of more than one process, as the composition of its loops.\<close>

lemma scaled_all_reduce_unfold:
  assumes "others w \<noteq> 0"
  shows "scaled_all_reduce F T ts w =
     (case scale_results F T (others w + 1) ts
             (wait_reductions T (map2 Work [issued w..<issued w + length ts] ts)
               (w\<lparr>issued := issued w + length ts, trace := trace w @ map AllReduce ts\<rparr>)) of
        (Inl e, w3) \<Rightarrow> (Inl e, w3)
      | (Inr u, w3) \<Rightarrow> (Inr ts, w3))"
  using assms by (simp add: scaled_all_reduce_def get_world_size_def queue_reductions_eq Let_def)

lemma scaled_all_reduce_snd:
  assumes "others w \<noteq> 0"
  shows "snd (scaled_all_reduce F T ts w) =
     snd (scale_results F T (others w + 1) ts
             (wait_reductions T (map2 Work [issued w..<issued w + length ts] ts)
               (w\<lparr>issued := issued w + length ts, trace := trace w @ map AllReduce ts\<rparr>)))"
  by (simp add: scaled_all_reduce_unfold[OF assms] split: prod.splits sum.splits)

lemma scaled_all_reduce_fst:
  assumes "others w \<noteq> 0"
  shows "fst (scaled_all_reduce F T ts w) = Inr ts \<longleftrightarrow>
     fst (scale_results F T (others w + 1) ts
             (wait_reductions T (map2 Work [issued w..<issued w + length ts] ts)
               (w\<lparr>issued := issued w + length ts, trace := trace w @ map AllReduce ts\<rparr>))) = Inr ()"
  by (simp add: scaled_all_reduce_unfold[OF assms] split: prod.splits sum.splits)

text \<open>
  C5, as stated, for every list of tensors: fails. In a group of two processes a tensor
  of an integer dtype makes \<open>mul_(1.0 / gpus)\<close> raise \<open>RuntimeError\<close>, so nothing is
  returned; and a tensor \<open>[1.0]\<close> that the list holds twice, where the other process
  contributes \<open>[1.0]\<close> to each of the two reductions, ends as \<open>[0.75]\<close>, not as the sum
  over the processes divided by two, \<open>[1.0]\<close>.
\<close>

theorem scaled_all_reduce_counterexample:
  "fst (scaled_all_reduce exact_ops exact_tensor_ops [5]
          \<lparr>others = 1, remote = (\<lambda>q h. [2, 2]),
           mem = (\<lambda>a. \<lparr>floating = False, elems = [4, 8]\<rparr>), issued = 0, trace = []\<rparr>)
     = Inl RuntimeError
   \<and> elems (mem (snd (scaled_all_reduce exact_ops exact_tensor_ops [5, 5]
          \<lparr>others = 1, remote = (\<lambda>q h. [1]),
           mem = (\<lambda>a. \<lparr>floating = True, elems = [1]\<rparr>), issued = 0, trace = []\<rparr>)) 5)
     = [3 / 4]
   \<and> (1 + 1) / 2 \<noteq> (3 / 4 :: real)"
  by (simp add: scaled_all_reduce_def get_world_size_def all_reduce_async_def wait_def
      all_reduce_sum_def mul_inplace_def to_float_def int_fits_def float_range_def
      exact_ops_def exact_tensor_ops_def Let_def)

text \<open>
  C5, amended: for every list of pairwise distinct tensors of a floating dtype and every
  size of the process group (below \<open>2 ^ 31\<close>), when the tensors that the other processes
  contribute have the shapes of the tensors of the list, \<open>scaled_all_reduce\<close> returns the
  list it was given. In a group of one process it changes nothing; in a larger group each
  tensor of the list holds, element by element, the sum of that tensor over all the
  processes, as the reduction computes it, multiplied by the float \<open>1.0 / gpus\<close>. No
  other tensor changes.
\<close>

theorem scaled_all_reduce_mean:
  assumes d: "distinct tensors"
    and fl: "\<forall>a \<in> set tensors. floating (mem w a)"
    and sz: "get_world_size w < 2 ^ 31"
    and sh: "\<forall>i<length tensors. \<forall>q<others w.
           length (remote w q (issued w + i)) = length (elems (mem w (tensors ! i)))"
  shows "fst (scaled_all_reduce F T tensors w) = Inr tensors
       \<and> (get_world_size w = 1 \<longrightarrow> snd (scaled_all_reduce F T tensors w) = w)
       \<and> (1 < get_world_size w \<longrightarrow>
            (\<forall>i<length tensors.
               mem (snd (scaled_all_reduce F T tensors w)) (tensors ! i)
               = (mem w (tensors ! i))
                   \<lparr>elems := map (\<lambda>j. t_mul T
                        (red_sum T (elems (mem w (tensors ! i)) ! j
                                   # map (\<lambda>q. remote w q (issued w + i) ! j) [0..<others w]))
                        (PyFloat (f_div F (f_of_int F 1) (f_of_int F (int (get_world_size w))))))
                      [0..<length (elems (mem w (tensors ! i)))]\<rparr>))
       \<and> (\<forall>a. a \<notin> set tensors \<longrightarrow> mem (snd (scaled_all_reduce F T tensors w)) a = mem w a)"
proof (cases "others w = 0")
  case True
  then show ?thesis by (simp add: scaled_all_reduce_def get_world_size_def)
next
  case False
  let ?s = "PyFloat (f_div F (f_of_int F 1) (f_of_int F (int (others w + 1))))"
  let ?w1 = "w\<lparr>issued := issued w + length tensors, trace := trace w @ map AllReduce tensors\<rparr>"
  let ?rs = "map2 Work [issued w..<issued w + length tensors] tensors"
  let ?w2 = "wait_reductions T ?rs ?w1"
  let ?R = "scale_results F T (others w + 1) tensors ?w2"
  have s: "py_truediv F (PyFloat (f_of_int F 1)) (PyInt (int (others w + 1))) = Inr ?s"
    using sz by (intro reciprocal) (simp_all add: get_world_size_def)
  have wa: "work_addr ` set ?rs = set tensors"
    by (rule work_addr_zip) simp
  have other2: "\<And>a. a \<notin> set tensors \<Longrightarrow> mem ?w2 a = mem w a"
  proof -
    fix a assume "a \<notin> set tensors"
    with wa have "a \<notin> work_addr ` set ?rs" by (simp only: not_False_eq_True)
    then have "mem ?w2 a = mem ?w1 a" by (rule wait_reductions_other)
    then show "mem ?w2 a = mem w a" by simp
  qed
  have mem2: "\<And>i. i < length tensors \<Longrightarrow> mem ?w2 (tensors ! i)
        = (mem w (tensors ! i))\<lparr>elems := all_reduce_sum T (elems (mem w (tensors ! i)))
                                       (map (\<lambda>q. remote w q (issued w + i)) [0..<others w])\<rparr>"
  proof -
    fix i assume "i < length tensors"
    with d have "mem ?w2 (tensors ! i)
        = (mem ?w1 (tensors ! i))\<lparr>elems := all_reduce_sum T (elems (mem ?w1 (tensors ! i)))
             (map (\<lambda>q. remote ?w1 q (issued w + i)) [0..<others ?w1])\<rparr>"
      by (rule wait_reductions_mem)
    then show "mem ?w2 (tensors ! i)
        = (mem w (tensors ! i))\<lparr>elems := all_reduce_sum T (elems (mem w (tensors ! i)))
                                       (map (\<lambda>q. remote w q (issued w + i)) [0..<others w])\<rparr>"
      by simp
  qed
  have fl2: "\<forall>a \<in> set tensors. floating (mem ?w2 a)"
  proof
    fix a assume a: "a \<in> set tensors"
    then obtain i where i: "i < length tensors" "tensors ! i = a"
      by (auto simp: in_set_conv_nth)
    from mem2[OF i(1)] i(2) fl a show "floating (mem ?w2 a)" by simp
  qed
  from scale_results_floating[OF fl2 s, of T] have sc:
      "fst ?R = Inr ()"
      "\<And>a. a \<notin> set tensors \<Longrightarrow> mem (snd ?R) a = mem ?w2 a"
      "\<And>a. a \<in> set tensors \<Longrightarrow> mem (snd ?R) a
              = (mem ?w2 a)\<lparr>elems := map (\<lambda>x. t_mul T x ?s) (elems (mem ?w2 a))\<rparr>"
    using d by blast+
  have ret: "fst (scaled_all_reduce F T tensors w) = Inr tensors"
    using sc(1) by (simp only: scaled_all_reduce_fst[OF False])
  have snd_eq: "snd (scaled_all_reduce F T tensors w) = snd ?R"
    by (rule scaled_all_reduce_snd[OF False])
  have other: "\<forall>a. a \<notin> set tensors \<longrightarrow> mem (snd (scaled_all_reduce F T tensors w)) a = mem w a"
    using sc(2) other2 by (simp add: snd_eq)
  have elems: "\<forall>i<length tensors.
               mem (snd (scaled_all_reduce F T tensors w)) (tensors ! i)
               = (mem w (tensors ! i))
                   \<lparr>elems := map (\<lambda>j. t_mul T
                        (red_sum T (elems (mem w (tensors ! i)) ! j
                                   # map (\<lambda>q. remote w q (issued w + i) ! j) [0..<others w]))
                        (PyFloat (f_div F (f_of_int F 1) (f_of_int F (int (get_world_size w))))))
                      [0..<length (elems (mem w (tensors ! i)))]\<rparr>"
  proof (intro allI impI)
    fix i assume i: "i < length tensors"
    then have "tensors ! i \<in> set tensors" by simp
    from sc(3)[OF this] mem2[OF i]
    have "mem (snd ?R) (tensors ! i)
          = (mem w (tensors ! i))\<lparr>elems := map (\<lambda>x. t_mul T x ?s)
               (all_reduce_sum T (elems (mem w (tensors ! i)))
                  (map (\<lambda>q. remote w q (issued w + i)) [0..<others w]))\<rparr>"
      by simp
    also have "map (\<lambda>x. t_mul T x ?s)
               (all_reduce_sum T (elems (mem w (tensors ! i)))
                  (map (\<lambda>q. remote w q (issued w + i)) [0..<others w]))
             = map (\<lambda>j. t_mul T
                        (red_sum T (elems (mem w (tensors ! i)) ! j
                                   # map (\<lambda>q. remote w q (issued w + i) ! j) [0..<others w]))
                        ?s)
                      [0..<length (elems (mem w (tensors ! i)))]"
      by (simp add: all_reduce_sum_def comp_def)
    finally show "mem (snd (scaled_all_reduce F T tensors w)) (tensors ! i)
               = (mem w (tensors ! i))
                   \<lparr>elems := map (\<lambda>j. t_mul T
                        (red_sum T (elems (mem w (tensors ! i)) ! j
                                   # map (\<lambda>q. remote w q (issued w + i) ! j) [0..<others w]))
                        (PyFloat (f_div F (f_of_int F 1) (f_of_int F (int (get_world_size w))))))
                      [0..<length (elems (mem w (tensors ! i)))]\<rparr>"
      by (simp add: snd_eq get_world_size_def)
  qed
  from False have "get_world_size w \<noteq> 1" by (simp add: get_world_size_def)
  with ret other elems show ?thesis by blast
qed

theorem scaled_all_reduce_mean_witness:
  "distinct [5, 7 :: nat]
   \<and> fst (scaled_all_reduce exact_ops exact_tensor_ops [5, 7]
        \<lparr>others = 1, remote = (\<lambda>q h. [real h + 1, 2]),
         mem = (\<lambda>a. \<lparr>floating = True, elems = [real a, 2]\<rparr>), issued = 0, trace = []\<rparr>)
     = Inr [5, 7]
   \<and> mem (snd (scaled_all_reduce exact_ops exact_tensor_ops [5, 7]
        \<lparr>others = 1, remote = (\<lambda>q h. [real h + 1, 2]),
         mem = (\<lambda>a. \<lparr>floating = True, elems = [real a, 2]\<rparr>), issued = 0, trace = []\<rparr>)) 5
     = \<lparr>floating = True, elems = [3, 2]\<rparr>
   \<and> mem (snd (scaled_all_reduce exact_ops exact_tensor_ops [5, 7]
        \<lparr>others = 1, remote = (\<lambda>q h. [real h + 1, 2]),
         mem = (\<lambda>a. \<lparr>floating = True, elems = [real a, 2]\<rparr>), issued = 0, trace = []\<rparr>)) 7
     = \<lparr>floating = True, elems = [9 / 2, 2]\<rparr>
   \<and> mem (snd (scaled_all_reduce exact_ops exact_tensor_ops [5, 7]
        \<lparr>others = 1, remote = (\<lambda>q h. [real h + 1, 2]),
         mem = (\<lambda>a. \<lparr>floating = True, elems = [real a, 2]\<rparr>), issued = 0, trace = []\<rparr>)) 6
     = \<lparr>floating = True, elems = [6, 2]\<rparr>"
proof -
  let ?w = "\<lparr>others = 1, remote = (\<lambda>q h. [real h + 1, 2]),
             mem = (\<lambda>a. \<lparr>floating = True, elems = [real a, 2]\<rparr>), issued = 0, trace = []\<rparr>"
  let ?w' = "snd (scaled_all_reduce exact_ops exact_tensor_ops [5, 7] ?w)"
  have d: "distinct [5, 7 :: nat]" by simp
  have fl: "\<forall>a \<in> set [5, 7 :: nat]. floating (mem ?w a)" by simp
  have sz: "get_world_size ?w < 2 ^ 31" by (simp add: get_world_size_def)
  have sh: "\<forall>i<length [5, 7 :: nat]. \<forall>q<others ?w.
              length (remote ?w q (issued ?w + i)) = length (elems (mem ?w ([5, 7] ! i)))"
    by simp
  note r = scaled_all_reduce_mean[OF d fl sz sh, of exact_ops exact_tensor_ops]
  have big: "1 < get_world_size ?w" by (simp add: get_world_size_def)
  from r have ret: "fst (scaled_all_reduce exact_ops exact_tensor_ops [5, 7] ?w) = Inr [5, 7]"
    by blast
  from r big have el: "\<And>i. i < 2 \<Longrightarrow>
      mem ?w' ([5, 7] ! i)
      = (mem ?w ([5, 7] ! i))
          \<lparr>elems := map (\<lambda>j. t_mul exact_tensor_ops
               (red_sum exact_tensor_ops (elems (mem ?w ([5, 7] ! i)) ! j
                   # map (\<lambda>q. remote ?w q (issued ?w + i) ! j) [0..<others ?w]))
               (PyFloat (f_div exact_ops (f_of_int exact_ops 1)
                   (f_of_int exact_ops (int (get_world_size ?w))))))
             [0..<length (elems (mem ?w ([5, 7] ! i)))]\<rparr>"
    by simp
  from r have rest: "\<And>a. a \<notin> set [5, 7] \<Longrightarrow> mem ?w' a = mem ?w a" by blast
  from el[of 0] have e1: "mem ?w' 5 = \<lparr>floating = True, elems = [3, 2]\<rparr>"
    by (simp add: get_world_size_def exact_ops_def exact_tensor_ops_def numeral_2_eq_2)
  from el[of 1] have e2: "mem ?w' 7 = \<lparr>floating = True, elems = [9 / 2, 2]\<rparr>"
    by (simp add: get_world_size_def exact_ops_def exact_tensor_ops_def numeral_2_eq_2)
  from rest[of 6] have e3: "mem ?w' 6 = \<lparr>floating = True, elems = [6, 2]\<rparr>" by simp
  from d ret e1 e2 e3 show ?thesis by blast
qed

text \<open>
  C6: in a group of more than one process, the calls in program order are: one
  asynchronous reduction per input tensor, in input order; then one wait per handle, in
  the same order; then the scalings, one per tensor in input order, all of them when the
  function returns and the first few when a scaling raises. So every request is issued
  before any wait, and every wait has returned before any tensor is scaled.
\<close>

theorem scaled_all_reduce_order:
  assumes "1 < get_world_size w"
  shows "\<exists>k\<le>length tensors.
           trace (snd (scaled_all_reduce F T tensors w))
           = trace w @ map AllReduce tensors
             @ map Wait (map2 Work [issued w..<issued w + length tensors] tensors)
             @ map Mul (take k tensors)
         \<and> (fst (scaled_all_reduce F T tensors w) = Inr tensors \<longrightarrow> k = length tensors)"
proof -
  from assms have nz: "others w \<noteq> 0" by (simp add: get_world_size_def)
  let ?w1 = "w\<lparr>issued := issued w + length tensors, trace := trace w @ map AllReduce tensors\<rparr>"
  let ?rs = "map2 Work [issued w..<issued w + length tensors] tensors"
  let ?w2 = "wait_reductions T ?rs ?w1"
  let ?R = "scale_results F T (others w + 1) tensors ?w2"
  from scale_results_trace[of tensors F T "others w + 1" ?w2]
  obtain k where k: "k \<le> length tensors"
      "trace (snd ?R) = trace ?w2 @ map Mul (take k tensors)"
      "fst ?R = Inr () \<longrightarrow> k = length tensors"
    by blast
  have t2: "trace ?w2 = trace w @ map AllReduce tensors @ map Wait ?rs"
    by (simp add: wait_reductions_frame)
  have "trace (snd (scaled_all_reduce F T tensors w))
        = trace w @ map AllReduce tensors @ map Wait ?rs @ map Mul (take k tensors)"
    by (simp only: scaled_all_reduce_snd[OF nz] k(2) t2 append_assoc)
  moreover have "fst (scaled_all_reduce F T tensors w) = Inr tensors \<longrightarrow> k = length tensors"
    using k(3) by (simp only: scaled_all_reduce_fst[OF nz])
  ultimately show ?thesis using k(1) by blast
qed

theorem scaled_all_reduce_order_witness:
  "1 < get_world_size
         \<lparr>others = 1, remote = (\<lambda>q h. [real h + 1, 2]),
          mem = (\<lambda>a. \<lparr>floating = True, elems = [real a, 2]\<rparr>), issued = 0, trace = []\<rparr>
   \<and> fst (scaled_all_reduce exact_ops exact_tensor_ops [5, 7]
        \<lparr>others = 1, remote = (\<lambda>q h. [real h + 1, 2]),
         mem = (\<lambda>a. \<lparr>floating = True, elems = [real a, 2]\<rparr>), issued = 0, trace = []\<rparr>)
     = Inr [5, 7]
   \<and> trace (snd (scaled_all_reduce exact_ops exact_tensor_ops [5, 7]
        \<lparr>others = 1, remote = (\<lambda>q h. [real h + 1, 2]),
         mem = (\<lambda>a. \<lparr>floating = True, elems = [real a, 2]\<rparr>), issued = 0, trace = []\<rparr>))
     = [AllReduce 5, AllReduce 7, Wait (Work 0 5), Wait (Work 1 7), Mul 5, Mul 7]"
proof -
  let ?w = "\<lparr>others = 1, remote = (\<lambda>q h. [real h + 1, 2]),
             mem = (\<lambda>a. \<lparr>floating = True, elems = [real a, 2]\<rparr>), issued = 0, trace = []\<rparr>"
  let ?R = "scaled_all_reduce exact_ops exact_tensor_ops [5, 7] ?w"
  have h: "1 < get_world_size ?w" by (simp add: get_world_size_def)
  have ret: "fst ?R = Inr [5, 7]"
    by (simp add: scaled_all_reduce_def get_world_size_def all_reduce_async_def wait_def
        mul_inplace_def to_float_def int_fits_def float_range_def exact_ops_def Let_def)
  from scaled_all_reduce_order[OF h, of "[5, 7]" exact_ops exact_tensor_ops] ret
  obtain k where "k = length [5, 7 :: nat]"
      "trace (snd ?R) = trace ?w @ map AllReduce [5, 7]
         @ map Wait (map2 Work [issued ?w..<issued ?w + length [5, 7 :: nat]] [5, 7])
         @ map Mul (take k [5, 7])"
    by blast
  then have "trace (snd ?R)
        = [AllReduce 5, AllReduce 7, Wait (Work 0 5), Wait (Work 1 7), Mul 5, Mul 7]"
    by (simp add: numeral_2_eq_2)
  with h ret show ?thesis by blast
qed

end
